theory Spec2Isabelle
  imports Complex_Main "HOL-Library.Log_Nat"
begin

section \<open>Python numbers\<close>

text \<open>
  \<^verbatim>\<open>app.py\<close> computes with Python \<^verbatim>\<open>int\<close> (unbounded, modelled by \<^typ>\<open>int\<close>) and
  Python \<^verbatim>\<open>float\<close> (IEEE 754 binary64). A finite float is modelled by the real number it
  denotes, and every operation that rounds is written with \<open>rnd\<close>, the round-to-nearest,
  ties-to-even rounding of binary64: 53 significant bits, the exponent of the leading bit
  no smaller than \<open>emin\<close> (below that the spacing stays at \<open>2 powi (emin - 52)\<close>, the
  subnormal range). A result whose rounding reaches \<open>2 powi emax\<close> overflows.
  Signed zeros are not distinguished and NaN does not occur: no operation of the program
  produces one from finite operands.
\<close>

definition round_half_even :: "real \<Rightarrow> int" where
  "round_half_even x =
     (let f = \<lfloor>x\<rfloor>; d = x - of_int f
      in if d < 1 / 2 then f else if 1 / 2 < d then f + 1 else if even f then f else f + 1)"

definition emin :: int where
  "emin = - 1022"

definition emax :: int where
  "emax = 1024"

definition binade :: "real \<Rightarrow> int" where
  "binade x =
     (let n = \<lfloor>\<bar>x\<bar> * 2 powi (- emin)\<rfloor>
      in if n \<le> 0 then emin else bitlen n - 1 + emin)"

definition ulp :: "real \<Rightarrow> real" where
  "ulp x = 2 powi (binade x - 52)"

definition rnd :: "real \<Rightarrow> real" where
  "rnd x = of_int (round_half_even (x / ulp x)) * ulp x"

datatype pyfloat = Fin real | PInf | NInf

definition fl :: "real \<Rightarrow> pyfloat" where
  \<comment> \<open>the binary64 result of an operation whose exact result is \<open>x\<close>\<close>
  "fl x =
     (let r = rnd x
      in if 2 powi emax \<le> r then PInf else if r \<le> - (2 powi emax) then NInf else Fin r)"

definition float_lit :: "real \<Rightarrow> real" where
  \<comment> \<open>a decimal literal such as \<^verbatim>\<open>0.35\<close>: the float nearest to the decimal\<close>
  "float_lit d = rnd d"

fun float_lt :: "pyfloat \<Rightarrow> real \<Rightarrow> bool" where
  \<comment> \<open>\<^verbatim>\<open>a < b\<close> for a float \<open>a\<close> and a finite float or an int \<open>b\<close> (compared exactly)\<close>
  "float_lt (Fin x) y = (x < y)"
| "float_lt PInf y = False"
| "float_lt NInf y = True"

datatype exn = ZeroDivisionError | OverflowError | IndexError | ValueError | Raised string

definition int_true_divide :: "int \<Rightarrow> int \<Rightarrow> exn + real" where
  \<comment> \<open>\<^verbatim>\<open>a / b\<close> on two ints: correctly rounded, raises when the quotient is too large\<close>
  "int_true_divide a b =
     (if b = 0 then Inl ZeroDivisionError
      else case fl (of_int a / of_int b) of Fin r \<Rightarrow> Inr r | _ \<Rightarrow> Inl OverflowError)"

definition float_pow2 :: "(real \<Rightarrow> pyfloat) \<Rightarrow> real \<Rightarrow> exn + real" where
  \<comment> \<open>\<^verbatim>\<open>x ** 2\<close> on a float: the C library's \<^verbatim>\<open>pow(x, 2.0)\<close>, here the parameter \<open>pw\<close>;
      Python raises when it overflows\<close>
  "float_pow2 pw x = (case pw x of Fin r \<Rightarrow> Inr r | _ \<Rightarrow> Inl OverflowError)"

definition pow2_rn :: "real \<Rightarrow> pyfloat" where
  \<comment> \<open>a correctly rounded \<^verbatim>\<open>pow(x, 2.0)\<close>\<close>
  "pow2_rn x = fl (x * x)"

definition float_of_int :: "int \<Rightarrow> exn + real" where
  \<comment> \<open>the conversion of an int operand of a float operation\<close>
  "float_of_int n = (case fl (of_int n) of Fin r \<Rightarrow> Inr r | _ \<Rightarrow> Inl OverflowError)"

definition float_true_divide :: "real \<Rightarrow> real \<Rightarrow> exn + pyfloat" where
  \<comment> \<open>\<^verbatim>\<open>a / b\<close> on two floats: raises on a zero divisor, overflows to an infinity silently\<close>
  "float_true_divide a b = (if b = 0 then Inl ZeroDivisionError else Inr (fl (a / b)))"

fun nth_exn :: "'a list \<Rightarrow> nat \<Rightarrow> exn + 'a" where
  \<comment> \<open>\<^verbatim>\<open>xs[i]\<close> for a literal index \<open>i \<ge> 0\<close>\<close>
  "nth_exn xs i = (if i < length xs then Inr (xs ! i) else Inl IndexError)"

fun py_max :: "real list \<Rightarrow> exn + real" where
  \<comment> \<open>the builtin \<^verbatim>\<open>max\<close> over a sequence: the first of the largest items\<close>
  "py_max [] = Inl ValueError"
| "py_max (x # xs) = Inr (foldl (\<lambda>m y. if m < y then y else m) x xs)"

section \<open>Feature engineering\<close>

text \<open>The eleven values read from the form widgets (lines 191 to 215), all Python ints.\<close>

record raw_input =
  age_years :: int
  gender :: int
  height :: int
  weight :: int
  ap_hi :: int
  ap_lo :: int
  cholesterol :: int
  gluc :: int
  smoke :: int
  alco :: int
  active :: int

definition in_range :: "raw_input \<Rightarrow> bool" where
  \<comment> \<open>the bounds and the option lists the widgets are declared with\<close>
  "in_range raw \<longleftrightarrow>
     18 \<le> age_years raw \<and> age_years raw \<le> 100 \<and>
     (gender raw = 1 \<or> gender raw = 2) \<and>
     120 \<le> height raw \<and> height raw \<le> 220 \<and>
     30 \<le> weight raw \<and> weight raw \<le> 200 \<and>
     80 \<le> ap_hi raw \<and> ap_hi raw \<le> 220 \<and>
     40 \<le> ap_lo raw \<and> ap_lo raw \<le> 160 \<and>
     (cholesterol raw = 1 \<or> cholesterol raw = 2 \<or> cholesterol raw = 3) \<and>
     (gluc raw = 1 \<or> gluc raw = 2 \<or> gluc raw = 3) \<and>
     (smoke raw = 0 \<or> smoke raw = 1) \<and>
     (alco raw = 0 \<or> alco raw = 1) \<and>
     (active raw = 0 \<or> active raw = 1)"

definition bmi :: "(real \<Rightarrow> pyfloat) \<Rightarrow> int \<Rightarrow> int \<Rightarrow> exn + pyfloat" where
  \<comment> \<open>\<^verbatim>\<open>weight / ((height / 100) ** 2)\<close>\<close>
  "bmi pw w h =
     (case int_true_divide h 100 of
        Inl e \<Rightarrow> Inl e
      | Inr q \<Rightarrow>
          (case float_pow2 pw q of
             Inl e \<Rightarrow> Inl e
           | Inr s \<Rightarrow>
               (case float_of_int w of
                  Inl e \<Rightarrow> Inl e
                | Inr wt \<Rightarrow> float_true_divide wt s)))"

definition bp_diff :: "int \<Rightarrow> int \<Rightarrow> int" where
  "bp_diff hi lo = hi - lo"

definition bmi_cat :: "pyfloat \<Rightarrow> int" where
  "bmi_cat b =
     (if float_lt b (float_lit (185 / 10)) then 0
      else if float_lt b 25 then 1
      else if float_lt b 30 then 2
      else 3)"

datatype pyval = PyInt int | PyFloat pyfloat

type_synonym row = "(string \<times> pyval) list"

type_synonym dataframe = "row list"

definition input_data :: "raw_input \<Rightarrow> pyfloat \<Rightarrow> int \<Rightarrow> int \<Rightarrow> dataframe" where
  \<comment> \<open>the one-row frame built from the dict literal, keys in the order written\<close>
  "input_data raw b d c =
     [[(''age_years'', PyInt (age_years raw)), (''height'', PyInt (height raw)),
       (''weight'', PyInt (weight raw)), (''ap_hi'', PyInt (ap_hi raw)),
       (''ap_lo'', PyInt (ap_lo raw)), (''bmi'', PyFloat b), (''bp_diff'', PyInt d),
       (''gender'', PyInt (gender raw)), (''cholesterol'', PyInt (cholesterol raw)),
       (''gluc'', PyInt (gluc raw)), (''smoke'', PyInt (smoke raw)),
       (''active'', PyInt (active raw)), (''alco'', PyInt (alco raw)),
       (''bmi_cat'', PyInt c)]]"

definition derive :: "(real \<Rightarrow> pyfloat) \<Rightarrow> raw_input \<Rightarrow> exn + dataframe" where
  \<comment> \<open>lines 225 to 238\<close>
  "derive pw raw =
     (case bmi pw (weight raw) (height raw) of
        Inl e \<Rightarrow> Inl e
      | Inr b \<Rightarrow> Inr (input_data raw b (bp_diff (ap_hi raw) (ap_lo raw)) (bmi_cat b)))"

section \<open>Risk tier\<close>

record tier =
  risk_label :: string
  risk_css :: string
  emoji :: "nat list"
  msg :: string

definition risk_tier :: "real \<Rightarrow> tier" where
  \<comment> \<open>lines 245 to 259; the emoji is given by its code points\<close>
  "risk_tier p =
     (if p < float_lit (35 / 100) then
        \<lparr>risk_label = ''Low Risk'', risk_css = ''risk-low'', emoji = [0x1F6E1, 0xFE0F],
         msg = ''Great job! Maintain your healthy lifestyle.''\<rparr>
      else if p < float_lit (65 / 100) then
        \<lparr>risk_label = ''Moderate Risk'', risk_css = ''risk-moderate'', emoji = [0x26A0, 0xFE0F],
         msg = ''Warning: Consider lifestyle improvements.''\<rparr>
      else
        \<lparr>risk_label = ''High Risk'', risk_css = ''risk-high'', emoji = [0x1F6A8],
         msg = ''Action Required: Seek medical advice.''\<rparr>)"

section \<open>The classifier and the assessment\<close>

text \<open>
  The pickled pipeline is not part of the repository. Loading it and calling it are
  operations of the runtime the script runs in; they act on a world \<open>'w\<close> (the file
  system, the resource cache, the state of the loaded object) and either raise or
  return. \<open>load_model\<close> stands for the cached \<^verbatim>\<open>load_prediction_model()\<close>; its failure
  carries the text of the exception. \<open>predict\<close> returns one label per row of the frame,
  \<open>predict_proba\<close> one row of class probabilities per row of the frame.
\<close>

record ('w, 'h) runtime =
  load_model :: "'w \<Rightarrow> (string + 'h) \<times> 'w"
  predict :: "'h \<Rightarrow> dataframe \<Rightarrow> 'w \<Rightarrow> (exn + int list) \<times> 'w"
  predict_proba :: "'h \<Rightarrow> dataframe \<Rightarrow> 'w \<Rightarrow> (exn + real list list) \<times> 'w"

definition bnd ::
  "('w \<Rightarrow> (exn + 'a) \<times> 'w) \<Rightarrow> ('a \<Rightarrow> 'w \<Rightarrow> (exn + 'b) \<times> 'w) \<Rightarrow> 'w \<Rightarrow> (exn + 'b) \<times> 'w" where
  \<comment> \<open>one statement after another; an exception ends the sequence\<close>
  "bnd m f w = (case m w of (Inl e, w') \<Rightarrow> (Inl e, w') | (Inr v, w') \<Rightarrow> f v w')"

definition lift :: "exn + 'a \<Rightarrow> 'w \<Rightarrow> (exn + 'a) \<times> 'w" where
  \<comment> \<open>a computation that does not touch the world\<close>
  "lift r w = (r, w)"

record assessment =
  prediction :: int
  probability :: real
  confidence :: pyfloat
  shown :: tier

definition confidence_of :: "real list \<Rightarrow> exn + pyfloat" where
  \<comment> \<open>\<^verbatim>\<open>max(row) * 100\<close> on a row of class probabilities (line 242); the product of a
      numpy float and an int overflows to an infinity without raising\<close>
  "confidence_of r = (case py_max r of Inl e \<Rightarrow> Inl e | Inr m \<Rightarrow> Inr (fl (m * 100)))"

definition run_assessment ::
  "(real \<Rightarrow> pyfloat) \<Rightarrow> ('w, 'h) runtime \<Rightarrow> 'h \<Rightarrow> raw_input \<Rightarrow> 'w \<Rightarrow> (exn + assessment) \<times> 'w" where
  \<comment> \<open>lines 225 to 259, the body of \<^verbatim>\<open>if predict_btn:\<close> up to the choice of the tier\<close>
  "run_assessment pw rt model raw =
     bnd (lift (derive pw raw)) (\<lambda>df.
     bnd (predict rt model df) (\<lambda>ys.
     bnd (lift (nth_exn ys 0)) (\<lambda>y.
     bnd (predict_proba rt model df) (\<lambda>ps.
     bnd (lift (nth_exn ps 0)) (\<lambda>r.
     bnd (lift (nth_exn r 1)) (\<lambda>p.
     bnd (predict_proba rt model df) (\<lambda>ps'.
     bnd (lift (nth_exn ps' 0)) (\<lambda>r'.
     bnd (lift (confidence_of r')) (\<lambda>c.
     lift (Inr \<lparr>prediction = y, probability = p, confidence = c,
                 shown = risk_tier p\<rparr>))))))))))"

definition run_assessment_once ::
  "(real \<Rightarrow> pyfloat) \<Rightarrow> ('w, 'h) runtime \<Rightarrow> 'h \<Rightarrow> raw_input \<Rightarrow> 'w \<Rightarrow> (exn + assessment) \<times> 'w" where
  \<comment> \<open>the assessment as the specification words it, to compare \<open>run_assessment\<close> with:
      one \<open>predict\<close> call and one \<open>predict_proba\<close> call on the derived frame, the row of
      that one answer giving both the probability and the confidence\<close>
  "run_assessment_once pw rt model raw =
     bnd (lift (derive pw raw)) (\<lambda>df.
     bnd (predict rt model df) (\<lambda>ys.
     bnd (lift (nth_exn ys 0)) (\<lambda>y.
     bnd (predict_proba rt model df) (\<lambda>ps.
     bnd (lift (nth_exn ps 0)) (\<lambda>r.
     bnd (lift (nth_exn r 1)) (\<lambda>p.
     bnd (lift (confidence_of r)) (\<lambda>c.
     lift (Inr \<lparr>prediction = y, probability = p, confidence = c,
                 shown = risk_tier p\<rparr>))))))))"

definition proba_read_only :: "('w, 'h) runtime \<Rightarrow> 'h \<Rightarrow> bool" where
  \<comment> \<open>the loaded classifier is used read-only: \<open>predict_proba\<close> leaves the world as it
      is and its answer does not depend on the world\<close>
  "proba_read_only rt model \<longleftrightarrow>
     (\<forall>df w v. predict_proba rt model df w = (fst (predict_proba rt model df v), w))"

text \<open>
  One run of the script, as the list of elements it puts on the page. The style sheet,
  the widgets, the chart and the metric row carry no logic of their own and are kept as
  constructors; an exception that nothing catches ends the run with its traceback.
\<close>

datatype element =
  PageConfig | Css | ErrorBox string | Title | Tabs | InputForm pyfloat | Divider
  | RiskBadge assessment | RadarChart | Metrics | SystemInfo | Disclaimer | Traceback exn

definition app ::
  "(real \<Rightarrow> pyfloat) \<Rightarrow> ('w, 'h) runtime \<Rightarrow> raw_input \<Rightarrow> bool \<Rightarrow> 'w \<Rightarrow> element list \<times> 'w" where
  "app pw rt raw predict_btn w =
     (case load_model rt w of
        (Inl e, w1) \<Rightarrow> ([PageConfig, Css, ErrorBox (''Error loading model: '' @ e)], w1)
      | (Inr model, w1) \<Rightarrow>
          (case bmi pw (weight raw) (height raw) of
             Inl e \<Rightarrow> ([PageConfig, Css, Title, Tabs, Traceback e], w1)
           | Inr current_bmi \<Rightarrow>
               if predict_btn then
                 (case run_assessment pw rt model raw w1 of
                    (Inl e, w2) \<Rightarrow>
                      ([PageConfig, Css, Title, Tabs, InputForm current_bmi, Divider,
                        Traceback e], w2)
                  | (Inr a, w2) \<Rightarrow>
                      ([PageConfig, Css, Title, Tabs, InputForm current_bmi, Divider,
                        RiskBadge a, RadarChart, Metrics, SystemInfo, Disclaimer], w2))
               else
                 ([PageConfig, Css, Title, Tabs, InputForm current_bmi, SystemInfo,
                   Disclaimer], w1)))"

text \<open>
  A session: the script runs again from its first line on every interaction, each run
  with the widget values and the button state of that moment, and the world the
  previous run left.
\<close>

fun session ::
  "(real \<Rightarrow> pyfloat) \<Rightarrow> ('w, 'h) runtime \<Rightarrow> (raw_input \<times> bool) list \<Rightarrow> 'w \<Rightarrow>
     element list list \<times> 'w" where
  "session pw rt [] w = ([], w)"
| "session pw rt ((raw, predict_btn) # rest) w =
     (case app pw rt raw predict_btn w of
        (page, w1) \<Rightarrow> (case session pw rt rest w1 of (pages, w2) \<Rightarrow> (page # pages, w2)))"

text \<open>
  To count the operations a run performs, a runtime is wrapped so that every operation
  also appends itself to a log kept beside the world.
\<close>

datatype call = Load | Predict dataframe | PredictProba dataframe

definition logged :: "('w, 'h) runtime \<Rightarrow> ('w \<times> call list, 'h) runtime" where
  "logged rt =
     \<lparr>load_model = (\<lambda>(w, l). case load_model rt w of (r, w') \<Rightarrow> (r, (w', l @ [Load]))),
      predict = (\<lambda>model df (w, l).
        case predict rt model df w of (r, w') \<Rightarrow> (r, (w', l @ [Predict df]))),
      predict_proba = (\<lambda>model df (w, l).
        case predict_proba rt model df w of (r, w') \<Rightarrow> (r, (w', l @ [PredictProba df])))\<rparr>"

fun is_load :: "call \<Rightarrow> bool" where
  "is_load Load = True"
| "is_load _ = False"

fun is_predict :: "call \<Rightarrow> bool" where
  "is_predict (Predict df) = True"
| "is_predict _ = False"

fun is_predict_proba :: "call \<Rightarrow> bool" where
  "is_predict_proba (PredictProba df) = True"
| "is_predict_proba _ = False"

text \<open>
  A runtime for running the model on concrete inputs: the artifact loads, the classifier
  answers every frame with the label \<open>y\<close> and the class probabilities \<open>ps\<close>.
  \<open>broken_runtime\<close> is one whose artifact cannot be loaded.
\<close>

definition const_runtime :: "int \<Rightarrow> real list \<Rightarrow> (unit, unit) runtime" where
  "const_runtime y ps =
     \<lparr>load_model = (\<lambda>w. (Inr (), w)),
      predict = (\<lambda>model df w. (Inr (map (\<lambda>_. y) df), w)),
      predict_proba = (\<lambda>model df w. (Inr (map (\<lambda>_. ps) df), w))\<rparr>"

definition broken_runtime :: "int \<Rightarrow> real list \<Rightarrow> (unit, unit) runtime" where
  "broken_runtime y ps =
     (const_runtime y ps)\<lparr>load_model := (\<lambda>w. (Inl ''No such file: cardio_pipeline.pkl'', w))\<rparr>"

definition recovering_runtime :: "int \<Rightarrow> real list \<Rightarrow> (nat, unit) runtime" where
  \<comment> \<open>the artifact is missing at the first attempt to load it and present afterwards;
      the world counts the attempts\<close>
  "recovering_runtime y ps =
     \<lparr>load_model = (\<lambda>w.
        if w = 0 then (Inl ''No such file: cardio_pipeline.pkl'', Suc w) else (Inr (), Suc w)),
      predict = (\<lambda>model df w. (Inr (map (\<lambda>_. y) df), w)),
      predict_proba = (\<lambda>model df w. (Inr (map (\<lambda>_. ps) df), w))\<rparr>"

definition flipping_runtime :: "(nat, unit) runtime" where
  \<comment> \<open>a classifier whose probabilities change from one call to the next; the world
      counts the calls\<close>
  "flipping_runtime =
     \<lparr>load_model = (\<lambda>w. (Inr (), w)),
      predict = (\<lambda>model df w. (Inr (map (\<lambda>_. 1) df), w)),
      predict_proba = (\<lambda>model df w.
        (Inr (map (\<lambda>_. if even w then [1 / 4, 3 / 4] else [1 / 2, 1 / 2]) df), Suc w))\<rparr>"

definition libm_pow_ok :: "(real \<Rightarrow> pyfloat) \<Rightarrow> bool" where
  \<comment> \<open>the accuracy asked of \<^verbatim>\<open>pow(x, 2.0)\<close>: within one unit in the last place of
      \<open>x\<^sup>2\<close> for \<open>x\<close> between 1 and 4\<close>
  "libm_pow_ok pw \<longleftrightarrow>
     (\<forall>x. 1 \<le> x \<and> x \<le> 4 \<longrightarrow> (\<exists>y. pw x = Fin y \<and> \<bar>y - x * x\<bar> \<le> x * x / 2 ^ 52))"

definition example_raw :: raw_input where
  \<comment> \<open>the default values of the widgets\<close>
  "example_raw =
     \<lparr>age_years = 45, gender = 1, height = 165, weight = 70, ap_hi = 120, ap_lo = 80,
      cholesterol = 1, gluc = 1, smoke = 0, alco = 0, active = 0\<rparr>"

definition example_row :: row where
  \<comment> \<open>the row derived from \<open>example_raw\<close>; its bmi is the float 25.71166207529844\<close>
  "example_row =
     [(''age_years'', PyInt 45), (''height'', PyInt 165), (''weight'', PyInt 70),
      (''ap_hi'', PyInt 120), (''ap_lo'', PyInt 80),
      (''bmi'', PyFloat (Fin (3618594741918443 / 140737488355328))),
      (''bp_diff'', PyInt 40), (''gender'', PyInt 1), (''cholesterol'', PyInt 1),
      (''gluc'', PyInt 1), (''smoke'', PyInt 0), (''active'', PyInt 0), (''alco'', PyInt 0),
      (''bmi_cat'', PyInt 2)]"

section \<open>Rounding: basic facts\<close>

lemma round_half_even_err: "\<bar>of_int (round_half_even y) - y\<bar> \<le> 1 / 2"
proof -
  have "of_int \<lfloor>y\<rfloor> \<le> y" "y < of_int \<lfloor>y\<rfloor> + 1" by linarith+
  then show ?thesis
    unfolding round_half_even_def Let_def by (auto simp: abs_le_iff)
qed

lemma round_half_even_of_int: "round_half_even (of_int k) = k"
  unfolding round_half_even_def Let_def by simp

lemma round_half_even_le:
  assumes "y \<le> of_int k"
  shows "round_half_even y \<le> k"
proof -
  have a: "\<lfloor>y\<rfloor> \<le> k" using assms by (simp add: floor_le_iff)
  have b: "\<lfloor>y\<rfloor> + 1 \<le> k" if "1 / 2 \<le> y - of_int \<lfloor>y\<rfloor>"
  proof -
    have "of_int \<lfloor>y\<rfloor> < (of_int k :: real)" using that assms by linarith
    then show ?thesis by simp
  qed
  show ?thesis
    unfolding round_half_even_def Let_def using a b by auto
qed

lemma round_half_even_ge:
  assumes "of_int k \<le> y"
  shows "k \<le> round_half_even y"
proof -
  have "k \<le> \<lfloor>y\<rfloor>" using assms by (simp add: le_floor_iff)
  then show ?thesis
    unfolding round_half_even_def Let_def by auto
qed

lemma bitlen_eqI:
  assumes "2 ^ k \<le> n" "n < 2 ^ Suc k"
  shows "bitlen n = int k + 1"
proof -
  have "(0::int) < 2 ^ k" by simp
  then have pos: "0 < n" using assms(1) by linarith
  let ?b = "bitlen n"
  from bitlen_bounds[OF pos] have lo: "2 ^ nat (?b - 1) \<le> n" and hi: "n < 2 ^ nat ?b"
    by auto
  have "(2::int) ^ nat (?b - 1) < 2 ^ Suc k" using lo assms(2) by linarith
  then have 1: "nat (?b - 1) < Suc k" by (simp del: power_Suc)
  have "(2::int) ^ k < 2 ^ nat ?b" using hi assms(1) by linarith
  then have 2: "k < nat ?b" by simp
  from 1 2 show ?thesis by linarith
qed

lemma binade_eqI:
  assumes lo: "2 powi e \<le> \<bar>x\<bar>" and hi: "\<bar>x\<bar> < 2 powi (e + 1)" and e: "emin \<le> e"
  shows "binade x = e"
proof -
  define k where "k = nat (e - emin)"
  define n where "n = \<lfloor>\<bar>x\<bar> * 2 powi (- emin)\<rfloor>"
  have k: "int k = e - emin" using e by (simp add: k_def)
  have p1: "(2::real) powi e * 2 powi (- emin) = 2 ^ k"
    by (simp add: k flip: power_int_add power_int_of_nat)
  have p2: "(2::real) powi (e + 1) * 2 powi (- emin) = 2 ^ Suc k"
    using p1 by (simp add: power_int_add)
  have "(2::real) powi e * 2 powi (- emin) \<le> \<bar>x\<bar> * 2 powi (- emin)"
    using lo by (intro mult_right_mono) simp_all
  then have "of_int (2 ^ k) \<le> \<bar>x\<bar> * 2 powi (- emin)" using p1 by simp
  then have n_lo: "2 ^ k \<le> n" unfolding n_def by (subst le_floor_iff)
  have "\<bar>x\<bar> * 2 powi (- emin) < 2 powi (e + 1) * 2 powi (- emin)"
    using hi by (intro mult_strict_right_mono) simp_all
  then have "\<bar>x\<bar> * 2 powi (- emin) < of_int (2 ^ Suc k)" using p2 by simp
  then have n_hi: "n < 2 ^ Suc k" unfolding n_def by (subst floor_less_iff)
  have "(0::int) < 2 ^ k" by simp
  then have pos: "0 < n" using n_lo by linarith
  have "bitlen n = int k + 1" by (rule bitlen_eqI[OF n_lo n_hi])
  then show ?thesis
    using pos k unfolding binade_def Let_def n_def[symmetric] by simp
qed

lemma rnd_eval:
  assumes "2 powi e \<le> \<bar>x\<bar>" "\<bar>x\<bar> < 2 powi (e + 1)" "emin \<le> e"
  shows "rnd x = of_int (round_half_even (x / 2 powi (e - 52))) * 2 powi (e - 52)"
  unfolding rnd_def ulp_def binade_eqI[OF assms] ..

lemma binade_lower:
  assumes "2 powi emin \<le> \<bar>x\<bar>"
  shows "2 powi (binade x) \<le> \<bar>x\<bar>"
proof -
  define n where "n = \<lfloor>\<bar>x\<bar> * 2 powi (- emin)\<rfloor>"
  have "(2::real) powi emin * 2 powi (- emin) \<le> \<bar>x\<bar> * 2 powi (- emin)"
    using assms by (intro mult_right_mono) simp_all
  then have "1 \<le> \<bar>x\<bar> * 2 powi (- emin)" by (simp flip: power_int_add)
  then have pos: "0 < n" unfolding n_def by simp
  have b: "binade x = bitlen n - 1 + emin"
    using pos unfolding binade_def Let_def n_def[symmetric] by simp
  have b1: "0 \<le> bitlen n - 1" using pos bitlen_bounds[OF pos]
    by (metis bitlen_eq_zero_iff bitlen_nonneg diff_ge_0_iff_ge int_one_le_iff_zero_less order_le_less not_less)
  have "2 ^ nat (bitlen n - 1) \<le> n" using bitlen_bounds[OF pos] by simp
  then have "(of_int (2 ^ nat (bitlen n - 1)) :: real) \<le> of_int n" by (simp only: of_int_le_iff)
  also have "\<dots> \<le> \<bar>x\<bar> * 2 powi (- emin)" unfolding n_def by simp
  finally have "(2::real) powi (bitlen n - 1) \<le> \<bar>x\<bar> * 2 powi (- emin)"
    using b1 by (simp add: power_int_nonneg_exp)
  then have "(2::real) powi (bitlen n - 1) * 2 powi emin \<le> \<bar>x\<bar> * 2 powi (- emin) * 2 powi emin"
    by (intro mult_right_mono) simp_all
  then show ?thesis
    unfolding b by (simp add: power_int_add mult.assoc flip: power_int_add)
qed

lemma ulp_pos: "0 < ulp x"
  unfolding ulp_def by simp

lemma rnd_err_ulp: "\<bar>rnd x - x\<bar> \<le> ulp x / 2"
proof -
  let ?u = "ulp x"
  let ?k = "of_int (round_half_even (x / ?u)) :: real"
  have u: "0 < ?u" by (rule ulp_pos)
  have "rnd x - x = (?k - x / ?u) * ?u"
    using u unfolding rnd_def by (simp add: left_diff_distrib)
  then have "\<bar>rnd x - x\<bar> = \<bar>?k - x / ?u\<bar> * ?u"
    using u by (simp add: abs_mult)
  also have "\<dots> \<le> 1 / 2 * ?u"
    using round_half_even_err[of "x / ?u"] u by (intro mult_right_mono) simp_all
  finally show ?thesis by simp
qed

lemma rnd_err:
  assumes "2 powi emin \<le> \<bar>x\<bar>"
  shows "\<bar>rnd x - x\<bar> \<le> \<bar>x\<bar> / 2 ^ 53"
proof -
  have "ulp x / 2 = 2 powi (binade x) / 2 ^ 53"
    unfolding ulp_def by (simp add: power_int_diff)
  also have "\<dots> \<le> \<bar>x\<bar> / 2 ^ 53"
    using binade_lower[OF assms] by (intro divide_right_mono) simp_all
  finally show ?thesis using rnd_err_ulp[of x] by linarith
qed

lemma emin_le_1: "(2::real) powi emin \<le> 1"
proof -
  have "(2::real) powi emin \<le> 2 powi 0"
    by (rule power_int_increasing) (simp_all add: emin_def)
  then show ?thesis by simp
qed

lemma emax_ge: "(1024::real) \<le> 2 powi emax"
proof -
  have "(2::real) powi 10 \<le> 2 powi emax"
    by (rule power_int_increasing) (simp_all add: emax_def)
  then show ?thesis by simp
qed

lemma fl_Fin:
  assumes "1 \<le> \<bar>x\<bar>" "\<bar>x\<bar> \<le> 500"
  shows "fl x = Fin (rnd x)"
proof -
  have "2 powi emin \<le> \<bar>x\<bar>" using assms(1) emin_le_1 by linarith
  from rnd_err[OF this] have e: "\<bar>rnd x - x\<bar> \<le> \<bar>x\<bar> / 2 ^ 53" .
  have "\<bar>x\<bar> / 2 ^ 53 \<le> \<bar>x\<bar>"
    by (simp add: field_simps)
  with e have "\<bar>rnd x - x\<bar> \<le> \<bar>x\<bar>" by linarith
  then have "\<bar>rnd x\<bar> < 1024" using assms(2) by linarith
  then have "\<bar>rnd x\<bar> < 2 powi emax" using emax_ge by linarith
  then show ?thesis unfolding fl_def Let_def by auto
qed

lemma binade_le:
  assumes "\<bar>x\<bar> < 2 powi (e + 1)" "emin \<le> e"
  shows "binade x \<le> e"
proof (cases "2 powi emin \<le> \<bar>x\<bar>")
  case True
  from binade_lower[OF True] assms(1) have "(2::real) powi binade x < 2 powi (e + 1)" by linarith
  moreover have "(2::real) powi (e + 1) \<le> 2 powi binade x" if "e + 1 \<le> binade x"
    using that by (intro power_int_increasing) simp_all
  ultimately have "binade x < e + 1" by fastforce
  then show ?thesis by simp
next
  case False
  then have "\<bar>x\<bar> * 2 powi (- emin) < 2 powi emin * 2 powi (- emin)"
    by (intro mult_strict_right_mono) simp_all
  then have "\<bar>x\<bar> * 2 powi (- emin) < 1" by (simp flip: power_int_add)
  then have "\<lfloor>\<bar>x\<bar> * 2 powi (- emin)\<rfloor> \<le> 0" by (simp add: floor_le_iff)
  then show ?thesis using assms(2) unfolding binade_def Let_def by simp
qed

lemma rnd_le:
  assumes "x \<le> of_int m * 2 powi j" "binade x - 52 \<le> j"
  shows "rnd x \<le> of_int m * 2 powi j"
proof -
  define k where "k = nat (j - (binade x - 52))"
  have k: "int k = j - (binade x - 52)" using assms(2) by (simp add: k_def)
  have j: "(2::real) powi j = 2 ^ k * ulp x"
    unfolding ulp_def by (simp add: k flip: power_int_add power_int_of_nat)
  have "x / ulp x \<le> of_int m * 2 powi j / ulp x"
    using assms(1) ulp_pos[of x] by (intro divide_right_mono) simp_all
  also have "\<dots> = of_int (m * 2 ^ k)" using ulp_pos[of x] by (simp add: j)
  finally have "round_half_even (x / ulp x) \<le> m * 2 ^ k" by (rule round_half_even_le)
  then have "(of_int (round_half_even (x / ulp x)) :: real) \<le> of_int (m * 2 ^ k)"
    by (simp only: of_int_le_iff)
  then have "rnd x \<le> of_int (m * 2 ^ k) * ulp x"
    unfolding rnd_def using ulp_pos[of x] by (intro mult_right_mono) simp_all
  then show ?thesis by (simp add: j)
qed

lemma rnd_nonneg:
  assumes "0 \<le> x"
  shows "0 \<le> rnd x"
proof -
  have "of_int 0 \<le> x / ulp x" using assms ulp_pos[of x] by simp
  then have "0 \<le> round_half_even (x / ulp x)" by (rule round_half_even_ge)
  then show ?thesis unfolding rnd_def using ulp_pos[of x] by simp
qed

subsection \<open>The literals of the program\<close>

lemma float_lit_18_5: "float_lit (185 / 10) = 185 / 10"
  unfolding float_lit_def
  by (subst rnd_eval[where e = 4]) (simp_all add: emin_def round_half_even_def)

lemma float_lit_0_35: "float_lit (35 / 100) = 3152519739159347 / 2 ^ 53"
  unfolding float_lit_def
  by (subst rnd_eval[where e = "- 2"]) (simp_all add: emin_def round_half_even_def)

lemma float_lit_0_65: "float_lit (65 / 100) = 5854679515581645 / 2 ^ 53"
  unfolding float_lit_def
  by (subst rnd_eval[where e = "- 1"]) (simp_all add: emin_def round_half_even_def)

lemma float_lit_0_349999: "float_lit (349999 / 1000000) = 6305021463920185 / 2 ^ 54"
  unfolding float_lit_def
  by (subst rnd_eval[where e = "- 2"]) (simp_all add: emin_def round_half_even_def)

lemma float_lit_0_649999: "float_lit (649999 / 1000000) = 2927335254191195 / 2 ^ 52"
  unfolding float_lit_def
  by (subst rnd_eval[where e = "- 1"]) (simp_all add: emin_def round_half_even_def)

section \<open>The BMI category\<close>

text \<open>
  Claim C4. For every finite bmi value \<open>b\<close>, \<open>bmi_cat\<close> is 0 when \<open>b < 18.5\<close>, 1 when
  \<open>18.5 \<le> b < 25\<close>, 2 when \<open>25 \<le> b < 30\<close> and 3 when \<open>30 \<le> b\<close>; each bucket
  contains its lower bound, so 18.5 goes to 1, 25 to 2 and 30 to 3. (The literal
  \<^verbatim>\<open>18.5\<close> is a float exactly, \<open>float_lit_18_5\<close>; 25 and 30 are ints.)
\<close>

theorem bmi_cat_buckets:
  "(b < 18.5 \<longrightarrow> bmi_cat (Fin b) = 0) \<and>
   (18.5 \<le> b \<and> b < 25 \<longrightarrow> bmi_cat (Fin b) = 1) \<and>
   (25 \<le> b \<and> b < 30 \<longrightarrow> bmi_cat (Fin b) = 2) \<and>
   (30 \<le> b \<longrightarrow> bmi_cat (Fin b) = 3) \<and>
   bmi_cat (Fin 18.5) = 1 \<and> bmi_cat (Fin 25) = 2 \<and> bmi_cat (Fin 30) = 3"
  unfolding bmi_cat_def float_lit_18_5 by simp

theorem bmi_cat_buckets_witness:
  "bmi_cat (Fin 18.49) = 0 \<and> bmi_cat (Fin 24.99) = 1 \<and> bmi_cat (Fin 29.99) = 2 \<and>
   bmi_cat (Fin 31) = 3"
  using bmi_cat_buckets[of "18.49"] bmi_cat_buckets[of "24.99"] bmi_cat_buckets[of "29.99"]
    bmi_cat_buckets[of 31]
  by simp

text \<open>
  Claim C10. The bucketing is total: every bmi value, finite or infinite, gets a
  category, and the category is one of 0, 1, 2, 3.
\<close>

theorem bmi_cat_total: "bmi_cat b \<in> {0, 1, 2, 3}"
  by (simp add: bmi_cat_def)

section \<open>The risk tier\<close>

text \<open>
  Claim C1. For every probability \<open>p\<close> the tier is "Low Risk" exactly when \<open>p < 0.35\<close>,
  "Moderate Risk" exactly when \<open>0.35 \<le> p < 0.65\<close> and "High Risk" exactly when
  \<open>0.65 \<le> p\<close>, where 0.35 and 0.65 are the floats the program's literals denote; the
  boundary value 0.35 is "Moderate Risk" and the boundary value 0.65 is "High Risk".
  Each of the two floats is the one nearest to its decimal.
\<close>

theorem risk_tier_thresholds:
  "(risk_label (risk_tier p) = ''Low Risk'' \<longleftrightarrow> p < float_lit (35 / 100)) \<and>
   (risk_label (risk_tier p) = ''Moderate Risk'' \<longleftrightarrow>
      float_lit (35 / 100) \<le> p \<and> p < float_lit (65 / 100)) \<and>
   (risk_label (risk_tier p) = ''High Risk'' \<longleftrightarrow> float_lit (65 / 100) \<le> p) \<and>
   risk_label (risk_tier (float_lit (35 / 100))) = ''Moderate Risk'' \<and>
   risk_label (risk_tier (float_lit (65 / 100))) = ''High Risk'' \<and>
   \<bar>float_lit (35 / 100) - 35 / 100\<bar> \<le> 1 / 2 ^ 55 \<and>
   \<bar>float_lit (65 / 100) - 65 / 100\<bar> \<le> 1 / 2 ^ 54"
  unfolding risk_tier_def float_lit_0_35 float_lit_0_65 by auto

theorem risk_tier_thresholds_witness:
  "risk_label (risk_tier (float_lit (349999 / 1000000))) = ''Low Risk'' \<and>
   risk_label (risk_tier (float_lit (649999 / 1000000))) = ''Moderate Risk'' \<and>
   risk_label (risk_tier (8 / 10)) = ''High Risk''"
  using risk_tier_thresholds[of "float_lit (349999 / 1000000)"]
    risk_tier_thresholds[of "float_lit (649999 / 1000000)"]
    risk_tier_thresholds[of "8 / 10"]
  unfolding float_lit_0_35 float_lit_0_65 float_lit_0_349999 float_lit_0_649999 by simp

section \<open>The body mass index\<close>

text \<open>
  Every rounding step of \<open>bmi\<close> changes its exact result by a relative error of at most
  \<open>d\<close>; the quotient then stays within the factor \<open>(1 + d)\<^sup>2 / (1 - d) ^ 3\<close> of the
  exact quotient \<open>w / x0\<^sup>2\<close>.
\<close>

lemma quotient_bound:
  fixes d x0 w q s wt b :: real
  assumes d: "0 < d" "d < 1" and x0: "0 < x0" and w: "0 < w"
    and q: "\<bar>q - x0\<bar> \<le> x0 * d"
    and s: "\<bar>s - q * q\<bar> \<le> q * q * d"
    and wt: "\<bar>wt - w\<bar> \<le> w * d"
    and b: "\<bar>b - wt / s\<bar> \<le> wt / s * d"
  shows "w / (x0 * x0) * ((1 - d)\<^sup>2 / (1 + d) ^ 3) \<le> b"
    and "b \<le> w / (x0 * x0) * ((1 + d)\<^sup>2 / (1 - d) ^ 3)"
proof -
  let ?lo = "x0 * (1 - d)" and ?hi = "x0 * (1 + d)"
  have lo_pos: "0 < ?lo" and hi_pos: "0 < ?hi" using d x0 by simp_all
  have q1: "?lo \<le> q" and q2: "q \<le> ?hi"
    using q by (simp_all add: abs_le_iff algebra_simps)
  have qpos: "0 < q" using lo_pos q1 by linarith
  have qq1: "?lo * ?lo \<le> q * q" using q1 lo_pos by (intro mult_mono) simp_all
  have qq2: "q * q \<le> ?hi * ?hi" using q2 qpos hi_pos by (intro mult_mono) simp_all
  have s1: "q * q * (1 - d) \<le> s" and s2: "s \<le> q * q * (1 + d)"
    using s by (simp_all add: abs_le_iff algebra_simps)
  have "?lo * ?lo * (1 - d) \<le> q * q * (1 - d)"
    using qq1 d by (intro mult_right_mono) simp_all
  with s1 have sL: "?lo * ?lo * (1 - d) \<le> s" by linarith
  have "q * q * (1 + d) \<le> ?hi * ?hi * (1 + d)"
    using qq2 d by (intro mult_right_mono) simp_all
  with s2 have sU: "s \<le> ?hi * ?hi * (1 + d)" by linarith
  have L_pos: "0 < ?lo * ?lo * (1 - d)" using lo_pos d by simp
  have spos: "0 < s" using L_pos sL by linarith
  have w1: "w * (1 - d) \<le> wt" and w2: "wt \<le> w * (1 + d)"
    using wt by (simp_all add: abs_le_iff algebra_simps)
  have w1pos: "0 < w * (1 - d)" using w d by simp
  have wtpos: "0 < wt" using w1pos w1 by linarith
  have y1: "w * (1 - d) / (?hi * ?hi * (1 + d)) \<le> wt / s"
    using w1 w1pos spos sU by (intro frac_le) simp_all
  have y2: "wt / s \<le> w * (1 + d) / (?lo * ?lo * (1 - d))"
    using w2 wtpos L_pos sL by (intro frac_le) simp_all
  define y where "y = wt / s"
  have "\<bar>b - y\<bar> \<le> y * d" using b unfolding y_def .
  then have "y * (1 - d) \<le> b" and "b \<le> y * (1 + d)"
    by (simp_all add: abs_le_iff algebra_simps)
  then have b1: "wt / s * (1 - d) \<le> b" and b2: "b \<le> wt / s * (1 + d)"
    unfolding y_def .
  have "w * (1 - d) / (?hi * ?hi * (1 + d)) * (1 - d) \<le> wt / s * (1 - d)"
    using y1 d by (intro mult_right_mono) simp_all
  with b1 have lower: "w * (1 - d) / (?hi * ?hi * (1 + d)) * (1 - d) \<le> b" by linarith
  have "wt / s * (1 + d) \<le> w * (1 + d) / (?lo * ?lo * (1 - d)) * (1 + d)"
    using y2 d by (intro mult_right_mono) simp_all
  with b2 have upper: "b \<le> w * (1 + d) / (?lo * ?lo * (1 - d)) * (1 + d)" by linarith
  have e1: "w * (1 - d) / (?hi * ?hi * (1 + d)) * (1 - d)
      = w / (x0 * x0) * ((1 - d)\<^sup>2 / (1 + d) ^ 3)"
    by (simp add: power2_eq_square power3_eq_cube mult_ac)
  have e2: "w * (1 + d) / (?lo * ?lo * (1 - d)) * (1 + d)
      = w / (x0 * x0) * ((1 + d)\<^sup>2 / (1 - d) ^ 3)"
    by (simp add: power2_eq_square power3_eq_cube mult_ac)
  show "w / (x0 * x0) * ((1 - d)\<^sup>2 / (1 + d) ^ 3) \<le> b" using lower e1 by simp
  show "b \<le> w / (x0 * x0) * ((1 + d)\<^sup>2 / (1 - d) ^ 3)" using upper e2 by simp
qed

lemma rnd_rel:
  assumes "1 \<le> x" "x \<le> 500"
  shows "fl x = Fin (rnd x)" and "\<bar>rnd x - x\<bar> \<le> x * (1 / 1000000000000000)"
proof -
  show "fl x = Fin (rnd x)" using assms by (intro fl_Fin) simp_all
  have "2 powi emin \<le> \<bar>x\<bar>" using assms(1) emin_le_1 by linarith
  from rnd_err[OF this] have "\<bar>rnd x - x\<bar> \<le> x / 2 ^ 53" using assms(1) by simp
  then show "\<bar>rnd x - x\<bar> \<le> x * (1 / 1000000000000000)" using assms(1) by simp
qed

lemma bmi_in_range:
  assumes h: "120 \<le> h" "h \<le> 220" and w: "30 \<le> w" "w \<le> 200" and pw: "libm_pow_ok pw"
  shows "\<exists>b. bmi pw w h = Inr (Fin b) \<and>
    \<bar>b - of_int w / (of_int h / 100)\<^sup>2\<bar> \<le> 1 / 10 ^ 9 \<and> 6 \<le> b \<and> b \<le> 139"
proof -
  define d :: real where "d = 1 / 1000000000000000"
  define x0 :: real where "x0 = of_int h / 100"
  define w0 :: real where "w0 = of_int w"
  define q where "q = rnd x0"
  have x0: "12 / 10 \<le> x0" "x0 \<le> 22 / 10" using h unfolding x0_def by simp_all
  have w0: "30 \<le> w0" "w0 \<le> 200" using w unfolding w0_def by simp_all
  have q_fl: "fl x0 = Fin q" and q_err: "\<bar>q - x0\<bar> \<le> x0 * d"
    unfolding q_def d_def using x0 by (intro rnd_rel; simp)+
  have q_rng: "1 \<le> q" "q \<le> 4" using q_err x0 unfolding d_def by linarith+
  from pw q_rng obtain s where s_pw: "pw q = Fin s" and s_err0: "\<bar>s - q * q\<bar> \<le> q * q / 2 ^ 52"
    unfolding libm_pow_ok_def by blast
  have qq: "1 \<le> q * q" "q * q \<le> 16"
    using q_rng mult_mono[of 1 q 1 q] mult_mono[of q 4 q 4] by simp_all
  have s_err: "\<bar>s - q * q\<bar> \<le> q * q * d" using s_err0 qq unfolding d_def by simp
  have s_rng: "1 / 2 \<le> s" "s \<le> 17" using s_err qq unfolding d_def by linarith+
  define wt where "wt = rnd w0"
  have wt_fl: "fl w0 = Fin wt" and wt_err: "\<bar>wt - w0\<bar> \<le> w0 * d"
    unfolding wt_def d_def using w0 by (intro rnd_rel; simp)+
  have wt_rng: "29 \<le> wt" "wt \<le> 201" using wt_err w0 unfolding d_def by linarith+
  define y where "y = wt / s"
  have y1: "1 \<le> y"
  proof -
    have "(1::real) \<le> 29 / 17" by simp
    also have "\<dots> \<le> wt / s" using wt_rng s_rng by (intro frac_le) simp_all
    finally show ?thesis unfolding y_def .
  qed
  have y2: "y \<le> 500"
  proof -
    have "wt / s \<le> 201 / (1 / 2)" using wt_rng s_rng by (intro frac_le) simp_all
    also have "\<dots> \<le> 500" by simp
    finally show ?thesis unfolding y_def .
  qed
  define b where "b = rnd y"
  have b_fl: "fl y = Fin b" and b_err: "\<bar>b - y\<bar> \<le> y * d"
    unfolding b_def d_def using y1 y2 by (intro rnd_rel; simp)+
  have run: "bmi pw w h = Inr (Fin b)"
    using q_fl s_pw wt_fl b_fl s_rng
    unfolding bmi_def int_true_divide_def float_pow2_def float_of_int_def float_true_divide_def
      x0_def w0_def y_def
    by simp
  define B where "B = w0 / (x0 * x0)"
  have x0x0: "144 / 100 \<le> x0 * x0" "x0 * x0 \<le> 484 / 100"
    using x0 mult_mono[of "12 / 10" x0 "12 / 10" x0] mult_mono[of x0 "22 / 10" x0 "22 / 10"]
    by simp_all
  have B_hi: "B \<le> 1389 / 10"
  proof -
    have "w0 / (x0 * x0) \<le> 200 / (144 / 100)" using w0 x0x0 by (intro frac_le) simp_all
    also have "\<dots> \<le> 1389 / 10" by simp
    finally show ?thesis unfolding B_def .
  qed
  have B_lo: "619 / 100 \<le> B"
  proof -
    have "(619::real) / 100 \<le> 30 / (484 / 100)" by simp
    also have "\<dots> \<le> w0 / (x0 * x0)" using w0 x0x0 by (intro frac_le) simp_all
    finally show ?thesis unfolding B_def .
  qed
  have d: "0 < d" "d < 1" unfolding d_def by simp_all
  have x0pos: "0 < x0" and w0pos: "0 < w0" using x0 w0 by simp_all
  note qb = quotient_bound[OF d x0pos w0pos q_err s_err wt_err b_err[unfolded y_def]]
  have c_lo: "1 - 1 / 10 ^ 12 \<le> (1 - d)\<^sup>2 / (1 + d) ^ 3"
    unfolding d_def by (simp add: power2_eq_square power3_eq_cube)
  have c_hi: "(1 + d)\<^sup>2 / (1 - d) ^ 3 \<le> 1 + 1 / 10 ^ 12"
    unfolding d_def by (simp add: power2_eq_square power3_eq_cube)
  have "B * (1 - 1 / 10 ^ 12) \<le> B * ((1 - d)\<^sup>2 / (1 + d) ^ 3)"
    using c_lo B_lo by (intro mult_left_mono) simp_all
  with qb(1) have lo: "B * (1 - 1 / 10 ^ 12) \<le> b" unfolding B_def by linarith
  have "B * ((1 + d)\<^sup>2 / (1 - d) ^ 3) \<le> B * (1 + 1 / 10 ^ 12)"
    using c_hi B_lo by (intro mult_left_mono) simp_all
  with qb(2) have hi: "b \<le> B * (1 + 1 / 10 ^ 12)" unfolding B_def by linarith
  have lo': "B - B / 1000000000000 \<le> b" using lo by (simp add: algebra_simps)
  have hi': "b \<le> B + B / 1000000000000" using hi by (simp add: algebra_simps)
  have "b - B \<le> 1 / 1000000000" "B - b \<le> 1 / 1000000000"
    using lo' hi' B_hi B_lo by linarith+
  then have "\<bar>b - B\<bar> \<le> 1 / 1000000000" by linarith
  also have "(1::real) / 1000000000 = 1 / 10 ^ 9" by simp
  finally have "\<bar>b - B\<bar> \<le> 1 / 10 ^ 9" .
  moreover have "6 \<le> b" "b \<le> 139" using lo' hi' B_hi B_lo by linarith+
  moreover have "B = of_int w / (of_int h / 100)\<^sup>2"
    unfolding B_def w0_def x0_def by (simp add: power2_eq_square)
  ultimately show ?thesis using run by auto
qed

lemma pow2_rn_ok: "libm_pow_ok pow2_rn"
  unfolding libm_pow_ok_def
proof (intro allI impI)
  fix x :: real
  assume x: "1 \<le> x \<and> x \<le> 4"
  then have xx: "1 \<le> x * x" "x * x \<le> 16"
    using mult_mono[of 1 x 1 x] mult_mono[of x 4 x 4] by simp_all
  then have a: "fl (x * x) = Fin (rnd (x * x))" by (intro fl_Fin) simp_all
  have "2 powi emin \<le> \<bar>x * x\<bar>" using xx(1) emin_le_1 by linarith
  from rnd_err[OF this] have "\<bar>rnd (x * x) - x * x\<bar> \<le> x * x / 2 ^ 53" using xx(1) by simp
  also have "\<dots> \<le> x * x / 2 ^ 52" using xx(1) by (intro divide_left_mono) simp_all
  finally show "\<exists>y. pow2_rn x = Fin y \<and> \<bar>y - x * x\<bar> \<le> x * x / 2 ^ 52"
    unfolding pow2_rn_def using a by blast
qed

lemma fl_small: "\<bar>rnd x\<bar> < 1024 \<Longrightarrow> fl x = Fin (rnd x)"
  using emax_ge unfolding fl_def Let_def by auto

lemma bmi_example: "bmi pow2_rn 70 165 = Inr (Fin (3618594741918443 / 140737488355328))"
proof -
  have q: "rnd (165 / 100) = 3715469692580659 / 2251799813685248"
    by (subst rnd_eval[where e = 0]) (simp_all add: emin_def round_half_even_def)
  have s: "rnd (3715469692580659 / 2251799813685248 * (3715469692580659 / 2251799813685248))
      = 6130524992758087 / 2251799813685248"
    by (subst rnd_eval[where e = 1]) (simp_all add: emin_def round_half_even_def)
  have w: "rnd 70 = 70"
    by (subst rnd_eval[where e = 6]) (simp_all add: emin_def round_half_even_def)
  have b: "rnd (70 / (6130524992758087 / 2251799813685248)) = 3618594741918443 / 140737488355328"
    by (subst rnd_eval[where e = 4]) (simp_all add: emin_def round_half_even_def)
  have A: "int_true_divide 165 100 = Inr (3715469692580659 / 2251799813685248)"
    unfolding int_true_divide_def using fl_small[of "165 / 100"] unfolding q by simp
  have B: "float_pow2 pow2_rn (3715469692580659 / 2251799813685248)
      = Inr (6130524992758087 / 2251799813685248)"
    unfolding float_pow2_def pow2_rn_def
    using fl_small[of "3715469692580659 / 2251799813685248 * (3715469692580659 / 2251799813685248)"]
    unfolding s by simp
  have C: "float_of_int 70 = Inr 70"
    unfolding float_of_int_def using fl_small[of 70] unfolding w by simp
  have D: "float_true_divide 70 (6130524992758087 / 2251799813685248)
      = Inr (Fin (3618594741918443 / 140737488355328))"
    unfolding float_true_divide_def
    using fl_small[of "70 / (6130524992758087 / 2251799813685248)"] unfolding b by simp
  show ?thesis
    unfolding bmi_def A sum.case B C D ..
qed

text \<open>
  Claim C5. For every height from 120 to 220 and every weight from 30 to 200, the
  expression \<^verbatim>\<open>weight / ((height / 100) ** 2)\<close> raises nothing and its float result is
  within \<open>10\<^sup>-\<^sup>9\<close> of the real number \<open>w / (h / 100)\<^sup>2\<close>, for any C library whose \<^verbatim>\<open>pow\<close>
  is accurate to one unit in the last place. At height 165 and weight 70 the result is
  25.71 to two decimals (\<open>bmi_example\<close> gives the float itself).
\<close>

theorem bmi_formula:
  assumes "120 \<le> h" "h \<le> 220" "30 \<le> w" "w \<le> 200" "libm_pow_ok pw"
  shows "\<exists>b. bmi pw w h = Inr (Fin b) \<and> \<bar>b - of_int w / (of_int h / 100)\<^sup>2\<bar> \<le> 1 / 10 ^ 9"
  using bmi_in_range[OF assms] by blast

theorem bmi_formula_witness:
  "libm_pow_ok pow2_rn \<and>
   (\<exists>b. bmi pow2_rn 70 165 = Inr (Fin b) \<and> \<bar>b - 70 / (165 / 100)\<^sup>2\<bar> \<le> 1 / 10 ^ 9 \<and>
      \<bar>b - 2571 / 100\<bar> \<le> 5 / 1000)"
proof -
  from bmi_formula[of 165 70 pow2_rn, OF _ _ _ _ pow2_rn_ok]
  obtain b where b: "bmi pow2_rn 70 165 = Inr (Fin b)"
    and e: "\<bar>b - of_int 70 / (of_int 165 / 100)\<^sup>2\<bar> \<le> 1 / 10 ^ 9"
    by auto
  from b have "b = 3618594741918443 / 140737488355328" unfolding bmi_example by simp
  then have "\<bar>b - 2571 / 100\<bar> \<le> 5 / 1000" by simp
  with b e pow2_rn_ok show ?thesis by auto
qed

section \<open>The feature record\<close>

lemma derive_in_range:
  assumes "in_range raw" "libm_pow_ok pw"
  shows "\<exists>b. bmi pw (weight raw) (height raw) = Inr (Fin b) \<and> 6 \<le> b \<and> b \<le> 139 \<and>
    derive pw raw =
      Inr (input_data raw (Fin b) (bp_diff (ap_hi raw) (ap_lo raw)) (bmi_cat (Fin b)))"
proof -
  from assms(1) have "120 \<le> height raw" "height raw \<le> 220" "30 \<le> weight raw" "weight raw \<le> 200"
    unfolding in_range_def by simp_all
  from bmi_in_range[OF this assms(2)] obtain b
    where "bmi pw (weight raw) (height raw) = Inr (Fin b)" "6 \<le> b" "b \<le> 139" by blast
  then show ?thesis unfolding derive_def by simp
qed

lemma example_raw_in_range: "in_range example_raw"
  unfolding in_range_def example_raw_def by simp

lemma derive_Inr:
  assumes "derive pw raw = Inr df"
  shows "\<exists>b. bmi pw (weight raw) (height raw) = Inr b \<and>
    df = input_data raw b (bp_diff (ap_hi raw) (ap_lo raw)) (bmi_cat b)"
  using assms unfolding derive_def by (auto split: sum.splits)

lemma derive_total:
  assumes "in_range raw" "libm_pow_ok pw"
  shows "\<exists>df. derive pw raw = Inr df"
  using derive_in_range[OF assms] by (elim exE conjE) (rule exI)

lemma derive_row:
  assumes "in_range raw" "libm_pow_ok pw"
  shows "\<exists>r0. derive pw raw = Inr [r0]"
  using derive_in_range[OF assms] unfolding input_data_def by (elim exE conjE) (rule exI)

lemma derive_example:
  "derive pow2_rn example_raw =
     Inr [[(''age_years'', PyInt 45), (''height'', PyInt 165), (''weight'', PyInt 70),
           (''ap_hi'', PyInt 120), (''ap_lo'', PyInt 80),
           (''bmi'', PyFloat (Fin (3618594741918443 / 140737488355328))),
           (''bp_diff'', PyInt 40), (''gender'', PyInt 1), (''cholesterol'', PyInt 1),
           (''gluc'', PyInt 1), (''smoke'', PyInt 0), (''active'', PyInt 0), (''alco'', PyInt 0),
           (''bmi_cat'', PyInt 2)]]"
proof -
  have c: "bmi_cat (Fin (3618594741918443 / 140737488355328)) = 2"
    unfolding bmi_cat_def float_lit_18_5 by simp
  have b: "bmi pow2_rn (weight example_raw) (height example_raw)
      = Inr (Fin (3618594741918443 / 140737488355328))"
    using bmi_example by (simp add: example_raw_def)
  show ?thesis
    unfolding derive_def b sum.case c input_data_def bp_diff_def
    by (simp add: example_raw_def)
qed

lemma derive_example_row: "derive pow2_rn example_raw = Inr [example_row]"
  unfolding example_row_def by (rule derive_example)

text \<open>
  Claim C7. Whenever the derivation returns, the frame handed to the classifier has one
  row, and that row holds exactly the fourteen keys \<open>age_years\<close>, \<open>height\<close>, \<open>weight\<close>,
  \<open>ap_hi\<close>, \<open>ap_lo\<close>, \<open>bmi\<close>, \<open>bp_diff\<close>, \<open>gender\<close>, \<open>cholesterol\<close>, \<open>gluc\<close>, \<open>smoke\<close>,
  \<open>active\<close>, \<open>alco\<close>, \<open>bmi_cat\<close> in this order, the eleven raw values unchanged under
  their keys; and it does return on every input within the widgets' ranges.
\<close>

theorem feature_record_fields:
  "(in_range raw \<and> libm_pow_ok pw \<longrightarrow> (\<exists>df. derive pw raw = Inr df)) \<and>
   (derive pw raw = Inr df \<longrightarrow>
      (\<exists>b. df =
         [[(''age_years'', PyInt (age_years raw)), (''height'', PyInt (height raw)),
           (''weight'', PyInt (weight raw)), (''ap_hi'', PyInt (ap_hi raw)),
           (''ap_lo'', PyInt (ap_lo raw)), (''bmi'', PyFloat b),
           (''bp_diff'', PyInt (ap_hi raw - ap_lo raw)),
           (''gender'', PyInt (gender raw)), (''cholesterol'', PyInt (cholesterol raw)),
           (''gluc'', PyInt (gluc raw)), (''smoke'', PyInt (smoke raw)),
           (''active'', PyInt (active raw)), (''alco'', PyInt (alco raw)),
           (''bmi_cat'', PyInt (bmi_cat b))]]))"
proof (intro conjI impI)
  assume "in_range raw \<and> libm_pow_ok pw"
  then have "in_range raw" "libm_pow_ok pw" by simp_all
  from derive_in_range[OF this] show "\<exists>df. derive pw raw = Inr df" by (elim exE conjE) (rule exI)
next
  assume "derive pw raw = Inr df"
  from derive_Inr[OF this] obtain b
    where "bmi pw (weight raw) (height raw) = Inr b \<and>
      df = input_data raw b (bp_diff (ap_hi raw) (ap_lo raw)) (bmi_cat b)" ..
  then have "df = input_data raw b (bp_diff (ap_hi raw) (ap_lo raw)) (bmi_cat b)" ..
  then show "\<exists>b. df =
         [[(''age_years'', PyInt (age_years raw)), (''height'', PyInt (height raw)),
           (''weight'', PyInt (weight raw)), (''ap_hi'', PyInt (ap_hi raw)),
           (''ap_lo'', PyInt (ap_lo raw)), (''bmi'', PyFloat b),
           (''bp_diff'', PyInt (ap_hi raw - ap_lo raw)),
           (''gender'', PyInt (gender raw)), (''cholesterol'', PyInt (cholesterol raw)),
           (''gluc'', PyInt (gluc raw)), (''smoke'', PyInt (smoke raw)),
           (''active'', PyInt (active raw)), (''alco'', PyInt (alco raw)),
           (''bmi_cat'', PyInt (bmi_cat b))]]"
    unfolding input_data_def bp_diff_def by (rule exI)
qed

theorem feature_record_fields_witness:
  "in_range example_raw \<and> libm_pow_ok pow2_rn \<and>
   (\<exists>df. derive pow2_rn example_raw = Inr df) \<and>
   (\<exists>b. [[(''age_years'', PyInt 45), (''height'', PyInt 165), (''weight'', PyInt 70),
           (''ap_hi'', PyInt 120), (''ap_lo'', PyInt 80),
           (''bmi'', PyFloat (Fin (3618594741918443 / 140737488355328))),
           (''bp_diff'', PyInt 40), (''gender'', PyInt 1), (''cholesterol'', PyInt 1),
           (''gluc'', PyInt 1), (''smoke'', PyInt 0), (''active'', PyInt 0), (''alco'', PyInt 0),
           (''bmi_cat'', PyInt 2)]] =
        [[(''age_years'', PyInt (age_years example_raw)),
          (''height'', PyInt (height example_raw)),
          (''weight'', PyInt (weight example_raw)), (''ap_hi'', PyInt (ap_hi example_raw)),
          (''ap_lo'', PyInt (ap_lo example_raw)), (''bmi'', PyFloat b),
          (''bp_diff'', PyInt (ap_hi example_raw - ap_lo example_raw)),
          (''gender'', PyInt (gender example_raw)),
          (''cholesterol'', PyInt (cholesterol example_raw)),
          (''gluc'', PyInt (gluc example_raw)), (''smoke'', PyInt (smoke example_raw)),
          (''active'', PyInt (active example_raw)), (''alco'', PyInt (alco example_raw)),
          (''bmi_cat'', PyInt (bmi_cat b))]])"
proof (intro conjI)
  show "in_range example_raw" by (rule example_raw_in_range)
  show "libm_pow_ok pow2_rn" by (rule pow2_rn_ok)
  show "\<exists>df. derive pow2_rn example_raw = Inr df"
    by (rule feature_record_fields[THEN conjunct1, THEN mp, OF conjI,
          OF example_raw_in_range pow2_rn_ok])
  show "\<exists>b. [[(''age_years'', PyInt 45), (''height'', PyInt 165), (''weight'', PyInt 70),
           (''ap_hi'', PyInt 120), (''ap_lo'', PyInt 80),
           (''bmi'', PyFloat (Fin (3618594741918443 / 140737488355328))),
           (''bp_diff'', PyInt 40), (''gender'', PyInt 1), (''cholesterol'', PyInt 1),
           (''gluc'', PyInt 1), (''smoke'', PyInt 0), (''active'', PyInt 0), (''alco'', PyInt 0),
           (''bmi_cat'', PyInt 2)]] =
        [[(''age_years'', PyInt (age_years example_raw)),
          (''height'', PyInt (height example_raw)),
          (''weight'', PyInt (weight example_raw)), (''ap_hi'', PyInt (ap_hi example_raw)),
          (''ap_lo'', PyInt (ap_lo example_raw)), (''bmi'', PyFloat b),
          (''bp_diff'', PyInt (ap_hi example_raw - ap_lo example_raw)),
          (''gender'', PyInt (gender example_raw)),
          (''cholesterol'', PyInt (cholesterol example_raw)),
          (''gluc'', PyInt (gluc example_raw)), (''smoke'', PyInt (smoke example_raw)),
          (''active'', PyInt (active example_raw)), (''alco'', PyInt (alco example_raw)),
          (''bmi_cat'', PyInt (bmi_cat b))]]"
    by (rule feature_record_fields[THEN conjunct2, THEN mp, OF derive_example])
qed

text \<open>
  Claim C6. \<open>bp_diff\<close> is the integer difference \<open>ap_hi - ap_lo\<close>, negative when
  \<open>ap_hi < ap_lo\<close>, and this is the value stored under the key \<open>bp_diff\<close> of the row.
\<close>

theorem bp_diff_plain:
  "bp_diff hi lo = hi - lo \<and> (hi < lo \<longrightarrow> bp_diff hi lo < 0) \<and>
   (derive pw raw = Inr df \<longrightarrow>
      (\<exists>r. df = [r] \<and> map_of r ''bp_diff'' = Some (PyInt (ap_hi raw - ap_lo raw))))"
proof (intro conjI impI)
  show "bp_diff hi lo = hi - lo" by (simp add: bp_diff_def)
  show "bp_diff hi lo < 0" if "hi < lo" using that by (simp add: bp_diff_def)
  assume "derive pw raw = Inr df"
  from derive_Inr[OF this] obtain b
    where "bmi pw (weight raw) (height raw) = Inr b \<and>
      df = input_data raw b (bp_diff (ap_hi raw) (ap_lo raw)) (bmi_cat b)" ..
  then have "df = input_data raw b (bp_diff (ap_hi raw) (ap_lo raw)) (bmi_cat b)" ..
  then show "\<exists>r. df = [r] \<and> map_of r ''bp_diff'' = Some (PyInt (ap_hi raw - ap_lo raw))"
    unfolding input_data_def bp_diff_def by simp
qed

theorem bp_diff_plain_witness:
  "bp_diff 80 160 = - 80 \<and> bp_diff 80 160 < 0 \<and>
   (\<exists>df r. derive pow2_rn (example_raw\<lparr>ap_hi := 80, ap_lo := 160\<rparr>) = Inr df \<and> df = [r] \<and>
      map_of r ''bp_diff'' = Some (PyInt (- 80)))"
proof -
  let ?raw = "example_raw\<lparr>ap_hi := 80, ap_lo := 160\<rparr>"
  have "in_range ?raw" unfolding in_range_def example_raw_def by simp
  from derive_total[OF this pow2_rn_ok]
  obtain df where df: "derive pow2_rn ?raw = Inr df" ..
  note t = bp_diff_plain[of 80 160 pow2_rn ?raw df]
  from t have 1: "bp_diff 80 160 = 80 - 160" by (rule conjunct1)
  from t have 2: "80 < (160::int) \<longrightarrow> bp_diff 80 160 < 0"
    by (rule conjunct2[THEN conjunct1])
  from t have "derive pow2_rn ?raw = Inr df \<longrightarrow>
      (\<exists>r. df = [r] \<and> map_of r ''bp_diff'' = Some (PyInt (ap_hi ?raw - ap_lo ?raw)))"
    by (rule conjunct2[THEN conjunct2])
  from this[THEN mp, OF df] obtain r
    where r: "df = [r] \<and> map_of r ''bp_diff'' = Some (PyInt (ap_hi ?raw - ap_lo ?raw))" ..
  have v: "ap_hi ?raw - ap_lo ?raw = - 80" by simp
  from r have 3: "df = [r] \<and> map_of r ''bp_diff'' = Some (PyInt (- 80))" unfolding v .
  have "\<exists>df r. derive pow2_rn ?raw = Inr df \<and> df = [r] \<and>
      map_of r ''bp_diff'' = Some (PyInt (- 80))"
    using df 3 by (intro exI[of _ df] exI[of _ r] conjI) simp_all
  moreover have "bp_diff 80 160 = - 80" using 1 by simp
  moreover have "bp_diff 80 160 < 0" using 2 by simp
  ultimately show ?thesis by (intro conjI)
qed

section \<open>The assessment\<close>

lemma run_assessment_Inr:
  assumes "run_assessment pw rt model raw w = (Inr a, w')"
  shows "\<exists>df ys w1 y ps w2 r p ps' r' c.
    derive pw raw = Inr df \<and> predict rt model df w = (Inr ys, w1) \<and> nth_exn ys 0 = Inr y \<and>
    predict_proba rt model df w1 = (Inr ps, w2) \<and> nth_exn ps 0 = Inr r \<and>
    nth_exn r 1 = Inr p \<and>
    predict_proba rt model df w2 = (Inr ps', w') \<and> nth_exn ps' 0 = Inr r' \<and>
    confidence_of r' = Inr c \<and>
    a = \<lparr>prediction = y, probability = p, confidence = c, shown = risk_tier p\<rparr>"
  using assms unfolding run_assessment_def bnd_def lift_def
  by (auto split: prod.splits sum.splits simp del: nth_exn.simps)

lemma run_assessment_shown:
  assumes "run_assessment pw rt model raw w = (Inr a, w')"
  shows "shown a = risk_tier (probability a)"
  using run_assessment_Inr[OF assms] by auto

lemma run_assessment_logged:
  assumes "run_assessment pw (logged rt) model raw (w, l0) = (Inr a, (w', l))"
  shows "\<exists>df. derive pw raw = Inr df \<and> l = l0 @ [Predict df, PredictProba df, PredictProba df]"
  using assms unfolding run_assessment_def bnd_def lift_def logged_def
  by (auto split: prod.splits sum.splits simp del: nth_exn.simps)

lemma run_assessment_const:
  assumes "derive pw raw = Inr df" "df = [r0]"
  shows "run_assessment pw (const_runtime y [p0, p1]) model raw w =
    (case confidence_of [p0, p1] of
       Inl e \<Rightarrow> (Inl e, w)
     | Inr c \<Rightarrow> (Inr \<lparr>prediction = y, probability = p1, confidence = c, shown = risk_tier p1\<rparr>, w))"
  using assms unfolding run_assessment_def bnd_def lift_def const_runtime_def
  by (simp split: sum.splits)

lemma run_assessment_logged_const:
  assumes "derive pw raw = Inr df" "df = [r0]" "confidence_of [p0, p1] = Inr c"
  shows "run_assessment pw (logged (const_runtime y [p0, p1])) model raw (w, l0) =
    (Inr \<lparr>prediction = y, probability = p1, confidence = c, shown = risk_tier p1\<rparr>,
     (w, l0 @ [Predict df, PredictProba df, PredictProba df]))"
  using assms unfolding run_assessment_def bnd_def lift_def const_runtime_def logged_def
  by simp

lemma py_max_pair: "py_max [p0, p1] = Inr (max p0 p1)"
  by (simp add: max_def)

lemma rnd_percent:
  assumes "0 \<le> x" "x \<le> 100"
  shows "0 \<le> rnd x" "rnd x \<le> 100" "fl x = Fin (rnd x)"
proof -
  show lo: "0 \<le> rnd x" using assms(1) by (rule rnd_nonneg)
  have "\<bar>x\<bar> < 2 powi (6 + 1)" using assms by simp
  then have "binade x \<le> 6" by (rule binade_le) (simp add: emin_def)
  then have "binade x - 52 \<le> 0" by simp
  moreover have "x \<le> of_int 100 * 2 powi 0" using assms(2) by simp
  ultimately have "rnd x \<le> of_int 100 * 2 powi 0" by (intro rnd_le)
  then show hi: "rnd x \<le> 100" by simp
  from lo hi have "\<bar>rnd x\<bar> < 1024" by simp
  then show "fl x = Fin (rnd x)" by (rule fl_small)
qed

lemma confidence_of_pair:
  assumes "0 \<le> p0" "p0 \<le> 1" "0 \<le> p1" "p1 \<le> 1"
  shows "\<exists>c. confidence_of [p0, p1] = Inr (Fin c) \<and> c = rnd (max p0 p1 * 100) \<and>
    0 \<le> c \<and> c \<le> 100"
proof -
  have "0 \<le> max p0 p1 * 100" "max p0 p1 * 100 \<le> 100" using assms by simp_all
  from rnd_percent[OF this] show ?thesis
    unfolding confidence_of_def py_max_pair by simp
qed

lemma float_lit_0_2: "float_lit (2 / 10) = 3602879701896397 / 18014398509481984"
  unfolding float_lit_def
  by (subst rnd_eval[where e = "- 3"]) (simp_all add: emin_def round_half_even_def)

lemma float_lit_0_8: "float_lit (8 / 10) = 3602879701896397 / 4503599627370496"
  unfolding float_lit_def
  by (subst rnd_eval[where e = "- 1"]) (simp_all add: emin_def round_half_even_def)

lemma confidence_example:
  "confidence_of [float_lit (2 / 10), float_lit (8 / 10)] = Inr (Fin 80)"
proof -
  have r: "rnd (3602879701896397 / 4503599627370496 * 100) = 80"
    by (subst rnd_eval[where e = 6]) (simp_all add: emin_def round_half_even_def)
  have m: "max (3602879701896397 / 18014398509481984) (3602879701896397 / 4503599627370496 :: real)
      = 3602879701896397 / 4503599627370496" by simp
  show ?thesis
    unfolding confidence_of_def py_max_pair float_lit_0_2 float_lit_0_8 m sum.case
    using fl_small[of "3602879701896397 / 4503599627370496 * 100"] unfolding r by simp
qed

text \<open>
  Claim C2, as the program has it. The confidence is a percentage: for class
  probabilities \<open>p0\<close> and \<open>p1\<close> between 0 and 1 it is the float product
  \<open>max p0 p1 * 100\<close>, which lies between 0 and 100; and the confidence of an assessment
  is computed in this way from the first row the second \<open>predict_proba\<close> call returns.
  The probabilities 0.20 and 0.80 give 80.0.
\<close>

theorem confidence_percent:
  "(0 \<le> p0 \<and> p0 \<le> 1 \<and> 0 \<le> p1 \<and> p1 \<le> 1 \<longrightarrow>
      (\<exists>c. confidence_of [p0, p1] = Inr (Fin c) \<and> c = rnd (max p0 p1 * 100) \<and>
         0 \<le> c \<and> c \<le> 100)) \<and>
   (run_assessment pw rt model raw w = (Inr a, w') \<longrightarrow>
      (\<exists>df w2 ps r. derive pw raw = Inr df \<and> predict_proba rt model df w2 = (Inr ps, w') \<and>
         nth_exn ps 0 = Inr r \<and> confidence_of r = Inr (confidence a)))"
proof (intro conjI impI)
  assume "0 \<le> p0 \<and> p0 \<le> 1 \<and> 0 \<le> p1 \<and> p1 \<le> 1"
  then have "0 \<le> p0" "p0 \<le> 1" "0 \<le> p1" "p1 \<le> 1" by simp_all
  then show "\<exists>c. confidence_of [p0, p1] = Inr (Fin c) \<and> c = rnd (max p0 p1 * 100) \<and>
      0 \<le> c \<and> c \<le> 100"
    by (rule confidence_of_pair)
next
  assume "run_assessment pw rt model raw w = (Inr a, w')"
  from run_assessment_Inr[OF this]
  show "\<exists>df w2 ps r. derive pw raw = Inr df \<and> predict_proba rt model df w2 = (Inr ps, w') \<and>
      nth_exn ps 0 = Inr r \<and> confidence_of r = Inr (confidence a)"
    by (elim exE conjE) (simp del: nth_exn.simps, blast)
qed

lemma run_example:
  "run_assessment pow2_rn (const_runtime 1 [float_lit (2 / 10), float_lit (8 / 10)]) ()
      example_raw () =
     (Inr \<lparr>prediction = 1, probability = float_lit (8 / 10), confidence = Fin 80,
           shown = risk_tier (float_lit (8 / 10))\<rparr>, ())"
  unfolding run_assessment_const[OF derive_example refl] confidence_example by simp

theorem confidence_percent_witness:
  "0 \<le> float_lit (2 / 10) \<and> float_lit (2 / 10) \<le> 1 \<and>
   0 \<le> float_lit (8 / 10) \<and> float_lit (8 / 10) \<le> 1 \<and>
   (\<exists>c. confidence_of [float_lit (2 / 10), float_lit (8 / 10)] = Inr (Fin c) \<and> c = 80 \<and>
      0 \<le> c \<and> c \<le> 100) \<and>
   (\<exists>a. run_assessment pow2_rn (const_runtime 1 [float_lit (2 / 10), float_lit (8 / 10)]) ()
          example_raw () = (Inr a, ()) \<and> confidence a = Fin 80 \<and>
        (\<exists>df w2 ps r. derive pow2_rn example_raw = Inr df \<and>
           predict_proba (const_runtime 1 [float_lit (2 / 10), float_lit (8 / 10)]) () df w2
             = (Inr ps, ()) \<and>
           nth_exn ps 0 = Inr r \<and> confidence_of r = Inr (confidence a)))"
proof -
  have h: "0 \<le> float_lit (2 / 10) \<and> float_lit (2 / 10) \<le> 1 \<and>
      0 \<le> float_lit (8 / 10) \<and> float_lit (8 / 10) \<le> 1"
    unfolding float_lit_0_2 float_lit_0_8 by simp
  from confidence_percent[THEN conjunct1, THEN mp, OF h]
  obtain c where c: "confidence_of [float_lit (2 / 10), float_lit (8 / 10)] = Inr (Fin c) \<and>
      c = rnd (max (float_lit (2 / 10)) (float_lit (8 / 10)) * 100) \<and> 0 \<le> c \<and> c \<le> 100" ..
  then have "c = 80" unfolding confidence_example by simp
  with c have 1: "\<exists>c. confidence_of [float_lit (2 / 10), float_lit (8 / 10)] = Inr (Fin c) \<and>
      c = 80 \<and> 0 \<le> c \<and> c \<le> 100"
    by (intro exI[of _ c]) simp
  let ?a = "\<lparr>prediction = 1, probability = float_lit (8 / 10), confidence = Fin 80,
           shown = risk_tier (float_lit (8 / 10))\<rparr>"
  note 2 = confidence_percent[THEN conjunct2, THEN mp, OF run_example]
  have 3: "confidence ?a = Fin 80" by simp
  have "\<exists>a. run_assessment pow2_rn (const_runtime 1 [float_lit (2 / 10), float_lit (8 / 10)]) ()
          example_raw () = (Inr a, ()) \<and> confidence a = Fin 80 \<and>
        (\<exists>df w2 ps r. derive pow2_rn example_raw = Inr df \<and>
           predict_proba (const_runtime 1 [float_lit (2 / 10), float_lit (8 / 10)]) () df w2
             = (Inr ps, ()) \<and>
           nth_exn ps 0 = Inr r \<and> confidence_of r = Inr (confidence a))"
    using run_example 2 3 by (intro exI[of _ ?a] conjI)
  with h 1 show ?thesis by (intro conjI) simp_all
qed

theorem confidence_is_max_counterexample:
  "fst (run_assessment pow2_rn (const_runtime 1 [float_lit (2 / 10), float_lit (8 / 10)]) ()
          example_raw ()) =
     Inr \<lparr>prediction = 1, probability = float_lit (8 / 10), confidence = Fin 80,
          shown = risk_tier (float_lit (8 / 10))\<rparr> \<and>
   Fin 80 \<noteq> Fin (max (float_lit (2 / 10)) (float_lit (8 / 10))) \<and>
   \<not> (80::real) \<le> 1"
proof (intro conjI)
  show "fst (run_assessment pow2_rn (const_runtime 1 [float_lit (2 / 10), float_lit (8 / 10)]) ()
          example_raw ()) =
     Inr \<lparr>prediction = 1, probability = float_lit (8 / 10), confidence = Fin 80,
          shown = risk_tier (float_lit (8 / 10))\<rparr>"
    unfolding run_example by (rule fst_conv)
  show "Fin 80 \<noteq> Fin (max (float_lit (2 / 10)) (float_lit (8 / 10)))"
    unfolding float_lit_0_2 float_lit_0_8 by simp
  show "\<not> (80::real) \<le> 1" by simp
qed

lemma two_calls_are_one:
  assumes "proba_read_only rt model"
  shows "run_assessment pw rt model raw w = run_assessment_once pw rt model raw w"
proof -
  define ans where "ans df = fst (predict_proba rt model df w)" for df
  have ro: "predict_proba rt model df v = (ans df, v)" for df v
    using assms unfolding proba_read_only_def ans_def by blast
  show ?thesis
    unfolding run_assessment_def run_assessment_once_def bnd_def lift_def ro
    by (auto split: prod.splits sum.splits simp del: nth_exn.simps)
qed

lemma const_runtime_read_only: "proba_read_only (const_runtime y ps) model"
  unfolding proba_read_only_def const_runtime_def by simp

lemma run_assessment_logged_calls:
  assumes "run_assessment pw (logged rt) model raw (w, []) = (Inr a, (w', l))"
  shows "\<exists>df. derive pw raw = Inr df \<and> length (filter is_predict l) = 1 \<and>
    (\<forall>c \<in> set l. c = Predict df \<or> c = PredictProba df)"
proof -
  from run_assessment_logged[OF assms]
  obtain df where df: "derive pw raw = Inr df \<and> l = [] @ [Predict df, PredictProba df, PredictProba df]" ..
  then have l: "l = [Predict df, PredictProba df, PredictProba df]" by simp
  have "length (filter is_predict l) = 1" unfolding l by simp
  moreover have "\<forall>c \<in> set l. c = Predict df \<or> c = PredictProba df" unfolding l by simp
  ultimately show ?thesis using df by (intro exI[of _ df]) simp
qed

lemma run_logged_appends:
  "\<exists>l'. snd (snd (run_assessment pw (logged rt) model raw (w, l0))) = l0 @ l'"
  unfolding run_assessment_def bnd_def lift_def logged_def
  by (auto split: prod.splits sum.splits simp del: nth_exn.simps)

lemma app_logged_loads_first:
  "\<exists>l'. snd (snd (app pw (logged rt) raw predict_btn (w, l0))) = l0 @ Load # l'"
proof -
  obtain r w1 where l: "load_model rt w = (r, w1)" by (cases "load_model rt w")
  have ll: "load_model (logged rt) (w, l0) = (r, (w1, l0 @ [Load]))"
    unfolding logged_def using l by simp
  from run_logged_appends[of pw rt _ raw w1 "l0 @ [Load]"]
  have ra: "\<exists>l'. snd (snd (run_assessment pw (logged rt) model raw (w1, l0 @ [Load]))) = l0 @ Load # l'" for model
    by simp
  show ?thesis
  proof (cases r)
    case (Inl e)
    then show ?thesis unfolding app_def ll by simp
  next
    case (Inr model)
    from ra[of model] obtain l' where
      l': "snd (snd (run_assessment pw (logged rt) model raw (w1, l0 @ [Load]))) = l0 @ Load # l'" ..
    show ?thesis
      unfolding app_def ll Inr using l'
      by (auto split: sum.splits prod.splits)
  qed
qed

lemma logged_run_example:
  "run_assessment pow2_rn (logged (const_runtime 1 [float_lit (2 / 10), float_lit (8 / 10)])) ()
      example_raw ((), []) =
     (Inr \<lparr>prediction = 1, probability = float_lit (8 / 10), confidence = Fin 80,
           shown = risk_tier (float_lit (8 / 10))\<rparr>,
      ((), [Predict [example_row], PredictProba [example_row], PredictProba [example_row]]))"
  using run_assessment_logged_const[OF derive_example_row refl confidence_example,
      of 1 "()" "()" "[]"]
  by (simp only: append_Nil)

text \<open>
  Claim C3. Every call an assessment makes to the classifier is made with the one frame
  derived from the input, and \<open>predict\<close> is called exactly once. \<open>predict_proba\<close> is
  written twice in the source (lines 241 and 242), and for a classifier used read-only
  the assessment is the one that calls it once: \<open>run_assessment\<close> equals
  \<open>run_assessment_once\<close>, in its result, in its exceptions and in the world it leaves.
\<close>

theorem predict_proba_logically_once:
  "(proba_read_only rt model \<longrightarrow>
      run_assessment pw rt model raw w = run_assessment_once pw rt model raw w) \<and>
   (run_assessment pw (logged rt) model raw (w, []) = (Inr a, (w', l)) \<longrightarrow>
      (\<exists>df. derive pw raw = Inr df \<and> length (filter is_predict l) = 1 \<and>
         (\<forall>c \<in> set l. c = Predict df \<or> c = PredictProba df)))"
proof (intro conjI impI)
  assume "proba_read_only rt model"
  then show "run_assessment pw rt model raw w = run_assessment_once pw rt model raw w"
    by (rule two_calls_are_one)
next
  assume "run_assessment pw (logged rt) model raw (w, []) = (Inr a, (w', l))"
  then show "\<exists>df. derive pw raw = Inr df \<and> length (filter is_predict l) = 1 \<and>
      (\<forall>c \<in> set l. c = Predict df \<or> c = PredictProba df)"
    by (rule run_assessment_logged_calls)
qed

theorem predict_proba_logically_once_witness:
  "proba_read_only (const_runtime 1 [float_lit (2 / 10), float_lit (8 / 10)]) () \<and>
   run_assessment_once pow2_rn (const_runtime 1 [float_lit (2 / 10), float_lit (8 / 10)]) ()
       example_raw () =
     (Inr \<lparr>prediction = 1, probability = float_lit (8 / 10), confidence = Fin 80,
           shown = risk_tier (float_lit (8 / 10))\<rparr>, ()) \<and>
   (\<exists>df. derive pow2_rn example_raw = Inr df \<and>
      length (filter is_predict
        [Predict [example_row], PredictProba [example_row], PredictProba [example_row]]) = 1 \<and>
      (\<forall>c \<in> set [Predict [example_row], PredictProba [example_row], PredictProba [example_row]].
         c = Predict df \<or> c = PredictProba df))"
proof (intro conjI)
  note t = predict_proba_logically_once[of "const_runtime 1 [float_lit (2 / 10), float_lit (8 / 10)]"
      "()" pow2_rn example_raw "()"]
  show ro: "proba_read_only (const_runtime 1 [float_lit (2 / 10), float_lit (8 / 10)]) ()"
    by (rule const_runtime_read_only)
  from t[THEN conjunct1, THEN mp, OF ro]
  show "run_assessment_once pow2_rn (const_runtime 1 [float_lit (2 / 10), float_lit (8 / 10)]) ()
       example_raw () =
     (Inr \<lparr>prediction = 1, probability = float_lit (8 / 10), confidence = Fin 80,
           shown = risk_tier (float_lit (8 / 10))\<rparr>, ())"
    unfolding run_example by (rule sym)
  show "\<exists>df. derive pow2_rn example_raw = Inr df \<and>
      length (filter is_predict
        [Predict [example_row], PredictProba [example_row], PredictProba [example_row]]) = 1 \<and>
      (\<forall>c \<in> set [Predict [example_row], PredictProba [example_row], PredictProba [example_row]].
         c = Predict df \<or> c = PredictProba df)"
    by (rule predict_proba_logically_once[THEN conjunct2, THEN mp, OF logged_run_example])
qed

text \<open>
  The read-only use of the classifier is what makes the two calls one: with a classifier
  whose answers change from call to call, the probability and the confidence of one
  assessment come from different answers.
\<close>

lemma run_flipping:
  "run_assessment pow2_rn flipping_runtime () example_raw 0 =
     (Inr \<lparr>prediction = 1, probability = 3 / 4, confidence = Fin 50,
           shown = risk_tier (3 / 4)\<rparr>, 2)"
proof -
  have r: "rnd (1 / 2 * 100) = 50"
    by (subst rnd_eval[where e = 5]) (simp_all add: emin_def round_half_even_def)
  have c: "confidence_of [1 / 2, 1 / 2] = Inr (Fin 50)"
    unfolding confidence_of_def py_max_pair sum.case
    using fl_small[of "1 / 2 * 100"] unfolding r by simp
  show ?thesis
    unfolding run_assessment_def bnd_def lift_def flipping_runtime_def derive_example_row
    by (simp add: c)
qed

lemma run_assessment_recovering:
  assumes "derive pw raw = Inr [r0]" "confidence_of [p0, p1] = Inr c"
  shows "run_assessment pw (recovering_runtime y [p0, p1]) model raw w =
    (Inr \<lparr>prediction = y, probability = p1, confidence = c, shown = risk_tier p1\<rparr>, w)"
  using assms unfolding run_assessment_def bnd_def lift_def recovering_runtime_def
  by simp

text \<open>
  Claim C8, as the program has it. A run of the script in which the classifier cannot be
  loaded puts the page configuration, the style sheet and the error box with the
  exception's text on the page and ends: no risk badge or any other part of a result,
  old or new, whatever the inputs and whether or not the button was pressed; the loader
  has been called once in this run and the classifier not at all. The failure ends the
  run, not the session: the next run calls the loader again.
\<close>

theorem load_failure_stops:
  assumes "load_model rt w = (Inl e, w1)"
  shows "app pw rt raw predict_btn w =
      ([PageConfig, Css, ErrorBox (''Error loading model: '' @ e)], w1) \<and>
    app pw (logged rt) raw predict_btn (w, []) =
      ([PageConfig, Css, ErrorBox (''Error loading model: '' @ e)], (w1, [Load])) \<and>
    (\<exists>l'. snd (snd (app pw (logged rt) raw' predict_btn' (w1, [Load]))) = Load # Load # l')"
proof (intro conjI)
  show "app pw rt raw predict_btn w =
      ([PageConfig, Css, ErrorBox (''Error loading model: '' @ e)], w1)"
    using assms unfolding app_def by simp
  show "app pw (logged rt) raw predict_btn (w, []) =
      ([PageConfig, Css, ErrorBox (''Error loading model: '' @ e)], (w1, [Load]))"
    using assms unfolding app_def logged_def by simp
  show "\<exists>l'. snd (snd (app pw (logged rt) raw' predict_btn' (w1, [Load]))) = Load # Load # l'"
    using app_logged_loads_first[of pw rt raw' predict_btn' w1 "[Load]"] by simp
qed

theorem load_failure_stops_witness:
  "load_model (broken_runtime 1 [float_lit (2 / 10), float_lit (8 / 10)]) () =
     (Inl ''No such file: cardio_pipeline.pkl'', ()) \<and>
   app pow2_rn (broken_runtime 1 [float_lit (2 / 10), float_lit (8 / 10)]) example_raw True () =
     ([PageConfig, Css, ErrorBox (''Error loading model: '' @ ''No such file: cardio_pipeline.pkl'')],
      ()) \<and>
   app pow2_rn (logged (broken_runtime 1 [float_lit (2 / 10), float_lit (8 / 10)])) example_raw
       True ((), []) =
     ([PageConfig, Css, ErrorBox (''Error loading model: '' @ ''No such file: cardio_pipeline.pkl'')],
      ((), [Load])) \<and>
   (\<exists>l'. snd (snd (app pow2_rn (logged (broken_runtime 1 [float_lit (2 / 10), float_lit (8 / 10)]))
       example_raw True ((), [Load]))) = Load # Load # l')"
proof -
  have l: "load_model (broken_runtime 1 [float_lit (2 / 10), float_lit (8 / 10)]) () =
     (Inl ''No such file: cardio_pipeline.pkl'', ())"
    unfolding broken_runtime_def const_runtime_def by simp
  note t = load_failure_stops[OF l, of pow2_rn example_raw True example_raw True]
  show ?thesis
    by (intro conjI l t[THEN conjunct1] t[THEN conjunct2, THEN conjunct1]
        t[THEN conjunct2, THEN conjunct2])
qed

theorem load_failure_session_counterexample:
  "session pow2_rn (recovering_runtime 1 [float_lit (2 / 10), float_lit (8 / 10)])
       [(example_raw, True), (example_raw, True)] 0 =
     ([[PageConfig, Css,
        ErrorBox (''Error loading model: '' @ ''No such file: cardio_pipeline.pkl'')],
       [PageConfig, Css, Title, Tabs, InputForm (Fin (3618594741918443 / 140737488355328)),
        Divider,
        RiskBadge \<lparr>prediction = 1, probability = float_lit (8 / 10), confidence = Fin 80,
          shown = risk_tier (float_lit (8 / 10))\<rparr>,
        RadarChart, Metrics, SystemInfo, Disclaimer]], 2)"
proof -
  let ?rt = "recovering_runtime 1 [float_lit (2 / 10), float_lit (8 / 10)]"
  have l0: "load_model ?rt 0 = (Inl ''No such file: cardio_pipeline.pkl'', Suc 0)"
    unfolding recovering_runtime_def by simp
  have l1: "load_model ?rt (Suc 0) = (Inr (), Suc (Suc 0))"
    unfolding recovering_runtime_def by simp
  have b: "bmi pow2_rn (weight example_raw) (height example_raw)
      = Inr (Fin (3618594741918443 / 140737488355328))"
    using bmi_example by (simp add: example_raw_def)
  note r = run_assessment_recovering[OF derive_example_row confidence_example, of 1]
  have a0: "app pow2_rn ?rt example_raw True 0 =
      ([PageConfig, Css,
        ErrorBox (''Error loading model: '' @ ''No such file: cardio_pipeline.pkl'')], Suc 0)"
    unfolding app_def l0 by simp
  have a1: "app pow2_rn ?rt example_raw True (Suc 0) =
      ([PageConfig, Css, Title, Tabs, InputForm (Fin (3618594741918443 / 140737488355328)),
        Divider,
        RiskBadge \<lparr>prediction = 1, probability = float_lit (8 / 10), confidence = Fin 80,
          shown = risk_tier (float_lit (8 / 10))\<rparr>,
        RadarChart, Metrics, SystemInfo, Disclaimer], Suc (Suc 0))"
    unfolding app_def l1 b by (simp only: prod.case sum.case if_True r)
  have two: "Suc (Suc 0) = 2" by simp
  show ?thesis
    by (simp only: session.simps a0 a1 prod.case two)
qed

text \<open>
  For comparison, a run in which the classifier loads and the button is pressed shows
  the risk badge.
\<close>

lemma app_example:
  "app pow2_rn (const_runtime 1 [float_lit (2 / 10), float_lit (8 / 10)]) example_raw True () =
     ([PageConfig, Css, Title, Tabs, InputForm (Fin (3618594741918443 / 140737488355328)),
       Divider,
       RiskBadge \<lparr>prediction = 1, probability = float_lit (8 / 10), confidence = Fin 80,
         shown = risk_tier (float_lit (8 / 10))\<rparr>,
       RadarChart, Metrics, SystemInfo, Disclaimer], ())"
proof -
  have l: "load_model (const_runtime 1 [float_lit (2 / 10), float_lit (8 / 10)]) () = (Inr (), ())"
    unfolding const_runtime_def by simp
  have b: "bmi pow2_rn (weight example_raw) (height example_raw)
      = Inr (Fin (3618594741918443 / 140737488355328))"
    using bmi_example by (simp add: example_raw_def)
  show ?thesis
    unfolding app_def l b by (simp only: prod.case sum.case if_True run_example)
qed

text \<open>
  Claim C9. Two assessments with the same probability show the same tier (label, style,
  emoji and advisory message), whatever the runtimes, the other inputs and the rest of
  the results are; and the derivation is a function of the raw input.
\<close>

theorem tier_from_probability_only:
  "(run_assessment pw rt model raw w = (Inr a, w') \<and>
    run_assessment pw' rt' model' raw' v = (Inr a', v') \<and>
    probability a = probability a' \<longrightarrow> shown a = shown a') \<and>
   (raw = raw' \<longrightarrow> derive pw raw = derive pw raw')"
proof (intro conjI impI)
  assume h: "run_assessment pw rt model raw w = (Inr a, w') \<and>
    run_assessment pw' rt' model' raw' v = (Inr a', v') \<and> probability a = probability a'"
  then have r: "run_assessment pw rt model raw w = (Inr a, w')"
    and r': "run_assessment pw' rt' model' raw' v = (Inr a', v')"
    and p: "probability a = probability a'"
    by simp_all
  have "shown a = risk_tier (probability a)" by (rule run_assessment_shown[OF r])
  also have "\<dots> = risk_tier (probability a')" unfolding p ..
  also have "\<dots> = shown a'" by (rule run_assessment_shown[OF r', symmetric])
  finally show "shown a = shown a'" .
next
  assume "raw = raw'"
  then show "derive pw raw = derive pw raw'" by simp
qed

theorem tier_from_probability_only_witness:
  "(\<exists>a a'.
      run_assessment pow2_rn (const_runtime 1 [float_lit (2 / 10), float_lit (8 / 10)]) ()
        example_raw () = (Inr a, ()) \<and>
      run_assessment pow2_rn (const_runtime 0 [float_lit (2 / 10), float_lit (8 / 10)]) ()
        (example_raw\<lparr>age_years := 60, weight := 90\<rparr>) () = (Inr a', ()) \<and>
      prediction a \<noteq> prediction a' \<and> probability a = probability a' \<and>
      shown a = shown a') \<and>
   derive pow2_rn example_raw = derive pow2_rn example_raw"
proof -
  let ?raw = "example_raw\<lparr>age_years := 60, weight := 90\<rparr>"
  let ?a = "\<lparr>prediction = 1, probability = float_lit (8 / 10), confidence = Fin 80,
      shown = risk_tier (float_lit (8 / 10))\<rparr>"
  let ?a' = "\<lparr>prediction = 0, probability = float_lit (8 / 10), confidence = Fin 80,
      shown = risk_tier (float_lit (8 / 10))\<rparr>"
  have "in_range ?raw" unfolding in_range_def example_raw_def by simp
  from derive_row[OF this pow2_rn_ok] obtain r0 where d: "derive pow2_rn ?raw = Inr [r0]" ..
  have r: "run_assessment pow2_rn (const_runtime 1 [float_lit (2 / 10), float_lit (8 / 10)]) ()
      example_raw () = (Inr ?a, ())"
    by (rule run_example)
  have r': "run_assessment pow2_rn (const_runtime 0 [float_lit (2 / 10), float_lit (8 / 10)]) ()
      ?raw () = (Inr ?a', ())"
    unfolding run_assessment_const[OF d refl] confidence_example by simp
  have p: "probability ?a = probability ?a'" by simp
  have q: "prediction ?a \<noteq> prediction ?a'" by simp
  note t = tier_from_probability_only[of pow2_rn _ "()" example_raw "()" ?a "()"
      pow2_rn _ "()" ?raw "()" ?a' "()"]
  from t[THEN conjunct1, THEN mp, OF conjI[OF r conjI[OF r' p]]]
  have s: "shown ?a = shown ?a'" .
  from t[THEN conjunct2] have e: "example_raw = ?raw \<longrightarrow>
      derive pow2_rn example_raw = derive pow2_rn ?raw" .
  have "\<exists>a a'.
      run_assessment pow2_rn (const_runtime 1 [float_lit (2 / 10), float_lit (8 / 10)]) ()
        example_raw () = (Inr a, ()) \<and>
      run_assessment pow2_rn (const_runtime 0 [float_lit (2 / 10), float_lit (8 / 10)]) ()
        ?raw () = (Inr a', ()) \<and>
      prediction a \<noteq> prediction a' \<and> probability a = probability a' \<and>
      shown a = shown a'"
    by (rule exI[of _ ?a], rule exI[of _ ?a'], intro conjI r r' q p s)
  then show ?thesis by (rule conjI) (rule refl)
qed

end
